theory Spec2Isabelle
  imports Main
begin

section \<open>Python values, errors and string methods used by CRXBot.py\<close>

text \<open>
  The records the bot receives from the repository API are parsed JSON: dictionaries,
  lists, strings, numbers, booleans and \<open>None\<close>. A dictionary is kept as an association
  list whose lookup takes the first binding of a key. A Python \<open>str\<close> is a list of
  characters and \<open>len\<close> counts them; the characters are the code points below 256, on
  which \<open>str.lower\<close> keeps the length.
\<close>

datatype pyval =
    PNone
  | PBool bool
  | PInt int
  | PStr string
  | PList "pyval list"
  | PDict "(string \<times> pyval) list"

datatype py_error =
    IndexError
  | KeyError
  | TypeError
  | AttributeError
  | StopIteration
  | HTTPError
  | ConnectionError
  | TweepError
  | OSError
  | RequestException

text \<open>Truth value of an object, as \<open>if obj:\<close> tests it.\<close>

fun truthy :: "pyval \<Rightarrow> bool" where
  "truthy PNone = False"
| "truthy (PBool b) = b"
| "truthy (PInt i) = (i \<noteq> 0)"
| "truthy (PStr s) = (s \<noteq> [])"
| "truthy (PList xs) = (xs \<noteq> [])"
| "truthy (PDict kvs) = (kvs \<noteq> [])"

text \<open>\<open>obj[key]\<close> with a string key: only a dictionary accepts it.\<close>

fun subscript :: "pyval \<Rightarrow> string \<Rightarrow> py_error + pyval" where
  "subscript (PDict kvs) k = (case map_of kvs k of None \<Rightarrow> Inl KeyError | Some v \<Rightarrow> Inr v)"
| "subscript _ k = Inl TypeError"

text \<open>\<open>str.lower\<close> on the code points below 256: A-Z and the accented capitals move up by 32.\<close>

definition char_lower :: "char \<Rightarrow> char" where
  "char_lower c =
     (let n = (of_char c :: nat)
      in if (65 \<le> n \<and> n \<le> 90) \<or> (192 \<le> n \<and> n \<le> 222 \<and> n \<noteq> 215)
         then char_of (n + 32) else c)"

definition str_lower :: "string \<Rightarrow> string" where
  "str_lower s = map char_lower s"

text \<open>\<open>obj.lower()\<close>: only a \<open>str\<close> has the method.\<close>

fun lower_method :: "pyval \<Rightarrow> py_error + string" where
  "lower_method (PStr s) = Inr (str_lower s)"
| "lower_method _ = Inl AttributeError"

text \<open>\<open>s.replace(' ', '-')\<close>.\<close>

definition replace_space :: "string \<Rightarrow> string" where
  "replace_space s = map (\<lambda>c. if c = CHR '' '' then CHR ''-'' else c) s"

definition endswith :: "string \<Rightarrow> string \<Rightarrow> bool" where
  "endswith s suf = (length suf \<le> length s \<and> drop (length s - length suf) s = suf)"

section \<open>get_preprint_image_url\<close>

text \<open>The \<open>for preprint_file in files\<close> loop of lines 24-31, and the fall-through of line 33.\<close>

fun image_loop :: "pyval list \<Rightarrow> py_error + pyval" where
  "image_loop [] = Inr (PStr [])"
| "image_loop (preprint_file # files) =
     (case subscript preprint_file ''is_link_only'' of
        Inl e \<Rightarrow> Inl e
      | Inr link \<Rightarrow>
          if truthy link then image_loop files
          else (case subscript preprint_file ''name'' of
                  Inl e \<Rightarrow> Inl e
                | Inr nm \<Rightarrow>
                    (case lower_method nm of
                       Inl e \<Rightarrow> Inl e
                     | Inr filename \<Rightarrow>
                         if endswith filename ''.png'' \<or> endswith filename ''.jpg''
                         then subscript preprint_file ''download_url''
                         else image_loop files)))"

text \<open>\<open>type(files) is list\<close>.\<close>

fun is_list :: "pyval \<Rightarrow> bool" where
  "is_list (PList _) = True"
| "is_list _ = False"

fun get_preprint_image_url :: "pyval \<Rightarrow> py_error + pyval" where
  "get_preprint_image_url (PList files) = image_loop files"
| "get_preprint_image_url _ = Inr (PStr [])"

section \<open>prepare_tweet\<close>

text \<open>
  The hashtag loop of lines 92-96: \<open>tweetText\<close> is the running text, and a tag whose
  hashtag would push it past 255 characters is passed over.
\<close>

fun hashtag_loop :: "string \<Rightarrow> string list \<Rightarrow> string" where
  "hashtag_loop tweetText [] = tweetText"
| "hashtag_loop tweetText (tag # tags) =
     (let hashtag = '' #'' @ replace_space (str_lower tag)
      in if length tweetText + length hashtag \<le> 255
         then hashtag_loop (tweetText @ hashtag) tags
         else hashtag_loop tweetText tags)"

text \<open>
  \<open>authors[-1]\<close> raises on the empty list; a \<open>full_name\<close> that is not a \<open>str\<close> makes the
  concatenation of line 82 or line 88 raise. The function returns \<open>False\<close> or the text.
\<close>

definition prepare_tweet ::
  "string \<Rightarrow> pyval list \<Rightarrow> string \<Rightarrow> string list \<Rightarrow> py_error + pyval" where
  "prepare_tweet title authors preprintURL tags =
     (let tweetTitle = title @ '' by ''
      in if authors = [] then Inl IndexError
         else (case subscript (last authors) ''full_name'' of
                 Inl e \<Rightarrow> Inl e
               | Inr (PStr full_name) \<Rightarrow>
                   (let tweetAuthors =
                          (if length authors > 1 then full_name @ '' & co-workers''
                           else full_name);
                        tweetText = hashtag_loop (tweetTitle @ tweetAuthors) tags;
                        tweetText = tweetText @ [CHR 0x0A, CHR 0x0A] @ preprintURL;
                        realtweetlength =
                          int (length tweetText) - int (length preprintURL) + 23
                    in if realtweetlength > 280 then Inr (PBool False)
                       else Inr (PStr tweetText))
               | Inr _ \<Rightarrow> Inl TypeError))"

section \<open>The outside world\<close>

text \<open>
  Decimal rendering of the integers the f-strings and \<open>str\<close> print.
\<close>

definition digit_char :: "nat \<Rightarrow> char" where
  "digit_char d = char_of (48 + d)"

fun str_nat :: "nat \<Rightarrow> string" where
  "str_nat n = (if n < 10 then [digit_char n] else str_nat (n div 10) @ [digit_char (n mod 10)])"

declare str_nat.simps [simp del]

definition str_int :: "int \<Rightarrow> string" where
  "str_int i = (if i < 0 then CHR ''-'' # str_nat (nat (- i)) else str_nat (nat i))"

text \<open>
  What the program does to its surroundings is kept in a record: the messages given to
  \<open>write_log\<close> (oldest first, without their time stamps), the content of \<open>id_log.txt\<close>, the
  content of \<open>temp.png\<close> when the file exists, and every call made to the posting API, to
  the repository's detail and file endpoints and to \<open>requests.get\<close> for an image, together
  with the seconds spent in \<open>time.sleep\<close>.
\<close>

datatype twitter_call =
    UpdateStatus string
  | UpdateWithMedia string string

datatype figshare_call =
    Preprint string
  | Files string

record world =
  activity_log :: "string list"
  id_log_txt :: string
  temp_png :: "string option"
  twitter_calls :: "twitter_call list"
  figshare_calls :: "figshare_call list"
  image_requests :: "string list"
  slept :: nat

record response =
  status_code :: nat
  body :: string

text \<open>The entry of the listing the loop reads (\<open>l['id']\<close>) and the detail record of an article.\<close>

record summary =
  sum_id :: int

record article =
  art_id :: int
  art_title :: string
  art_authors :: "pyval list"
  art_doi :: string
  art_tags :: "string list"

text \<open>
  How the surroundings answer. Each answer may depend on everything done so far; a call
  either raises or returns. \<open>getsizeof_doc\<close> is the value of \<open>sys.getsizeof(doc)\<close>.
\<close>

record env =
  requests_get :: "world \<Rightarrow> string \<Rightarrow> py_error + response"
  twitter_api :: "world \<Rightarrow> twitter_call \<Rightarrow> py_error option"
  api_preprint :: "world \<Rightarrow> string \<Rightarrow> py_error + article"
  api_files :: "world \<Rightarrow> string \<Rightarrow> py_error + pyval"
  getsizeof_doc :: nat

definition doiRootURL :: string where
  "doiRootURL = ''https://doi.org/''"

definition write_log :: "string \<Rightarrow> world \<Rightarrow> world" where
  "write_log message w = w\<lparr>activity_log := activity_log w @ [message]\<rparr>"

section \<open>tweet_image\<close>

text \<open>
  Lines 44-52: the download. The result says whether \<open>include_image\<close> was set; a raise of
  \<open>requests.get\<close> leaves the function at once.
\<close>

definition download :: "env \<Rightarrow> string \<Rightarrow> world \<Rightarrow> (py_error + bool) \<times> world" where
  "download e url w =
     (if length url > 0 then
        (let w1 = w\<lparr>image_requests := image_requests w @ [url]\<rparr>
         in case requests_get e w url of
              Inl err \<Rightarrow> (Inl err, w1)
            | Inr request \<Rightarrow>
                if status_code request = 200
                then (Inr True, w1\<lparr>temp_png := Some (body request)\<rparr>)
                else (Inr False,
                      write_log ''Error, couldn't download image. Continue without.'' w1))
      else (Inr False, w))"

text \<open>Lines 55-59: the live branch. A call is recorded, then it returns or raises.\<close>

definition post_live :: "env \<Rightarrow> bool \<Rightarrow> string \<Rightarrow> world \<Rightarrow> (py_error + unit) \<times> world" where
  "post_live e include_image message w =
     (let filename = ''temp.png'' in
      if include_image then
        (let call = UpdateWithMedia filename message;
             w1 = w\<lparr>twitter_calls := twitter_calls w @ [call]\<rparr>
         in case twitter_api e w call of
              Some err \<Rightarrow> (Inl err, w1)
            | None \<Rightarrow> (Inr (), w1\<lparr>temp_png := None\<rparr>))
      else
        (let call = UpdateStatus message;
             w1 = w\<lparr>twitter_calls := twitter_calls w @ [call]\<rparr>
         in case twitter_api e w call of
              Some err \<Rightarrow> (Inl err, w1)
            | None \<Rightarrow> (Inr (), w1)))"

text \<open>Lines 61-64: the offline branch.\<close>

definition post_offline :: "bool \<Rightarrow> world \<Rightarrow> (py_error + unit) \<times> world" where
  "post_offline include_image w =
     (let w1 = write_log
                 ''Offline-Tweeting due to user request (--notwitter on command line).'' w
      in if include_image then
           (case temp_png w1 of
              None \<Rightarrow> (Inl OSError, w1)
            | Some img \<Rightarrow>
                (let filesize = length img div 1024
                 in (Inr (), write_log (''Tweet includes image of '' @ str_nat filesize
                                          @ '' KBytes.'') w1)))
         else (Inr (), w1))"

definition tweet_image ::
  "env \<Rightarrow> string \<Rightarrow> string \<Rightarrow> bool \<Rightarrow> world \<Rightarrow> (py_error + unit) \<times> world" where
  "tweet_image e url message usetwitter w =
     (case download e url w of
        (Inl err, w1) \<Rightarrow> (Inl err, w1)
      | (Inr include_image, w1) \<Rightarrow>
          (case (if usetwitter then post_live e include_image message w1
                 else post_offline include_image w1) of
             (Inl err, w2) \<Rightarrow> (Inl err, w2)
           | (Inr _, w2) \<Rightarrow>
               (let lenmessage = length message
                in (Inr (), write_log (''Tweet successful. '' @ message @ '' (''
                                         @ str_nat lenmessage @ '' characters).'') w2))))"

section \<open>The dedup log and the main loop\<close>

text \<open>
  Reading \<open>id_log.txt\<close> in text mode (lines 281-288): line endings \<open>\r\n\<close> and \<open>\r\<close> become
  \<open>\n\<close>, \<open>list(f)\<close> cuts the text behind every \<open>\n\<close>, and \<open>strip('\n')\<close> removes the line
  breaks at both ends of each piece.
\<close>

fun universal_newlines :: "string \<Rightarrow> string" where
  "universal_newlines [] = []"
| "universal_newlines [c] = [if c = CHR 0x0D then CHR 0x0A else c]"
| "universal_newlines (c # d # cs) =
     (if c = CHR 0x0D \<and> d = CHR 0x0A then CHR 0x0A # universal_newlines cs
      else if c = CHR 0x0D then CHR 0x0A # universal_newlines (d # cs)
      else c # universal_newlines (d # cs))"

fun file_lines :: "string \<Rightarrow> string \<Rightarrow> string list" where
  "file_lines cur [] = (if cur = [] then [] else [cur])"
| "file_lines cur (c # cs) =
     (if c = CHR 0x0A then (cur @ [c]) # file_lines [] cs else file_lines (cur @ [c]) cs)"

definition strip_newline :: "string \<Rightarrow> string" where
  "strip_newline s =
     rev (dropWhile (\<lambda>c. c = CHR 0x0A) (rev (dropWhile (\<lambda>c. c = CHR 0x0A) s)))"

definition read_id_log :: "string \<Rightarrow> string list" where
  "read_id_log content = map strip_newline (file_lines [] (universal_newlines content))"

text \<open>Lines 366-367: \<open>f.write(preprint_id + '\n')\<close> on the file opened for appending.\<close>

definition commit_id :: "string \<Rightarrow> world \<Rightarrow> world" where
  "commit_id preprint_id w = w\<lparr>id_log_txt := id_log_txt w @ preprint_id @ [CHR 0x0A]\<rparr>"

record counters =
  preprints_added :: nat
  preprints_tweeted :: nat
  preprints_tweeted_FAILED :: nat

text \<open>
  \<open>tweet_image\<close> as the loop calls it, with whatever \<open>download_url\<close> held. Only \<open>len(url)\<close>
  and \<open>requests.get(url)\<close> look at the URL: \<open>len\<close> raises on \<open>None\<close>, a number or a boolean,
  an empty list or dictionary passes for no URL, and \<open>requests.get\<close> refuses a non-empty
  one before any request is sent.
\<close>

fun tweet_image_any ::
  "env \<Rightarrow> pyval \<Rightarrow> string \<Rightarrow> bool \<Rightarrow> world \<Rightarrow> (py_error + unit) \<times> world" where
  "tweet_image_any e (PStr url) message usetwitter w = tweet_image e url message usetwitter w"
| "tweet_image_any e (PList xs) message usetwitter w =
     (if xs = [] then tweet_image e [] message usetwitter w else (Inl RequestException, w))"
| "tweet_image_any e (PDict kvs) message usetwitter w =
     (if kvs = [] then tweet_image e [] message usetwitter w else (Inl RequestException, w))"
| "tweet_image_any e _ message usetwitter w = (Inl TypeError, w)"

text \<open>
  Lines 317-374: the work on a preprint that is not in \<open>id_log\<close>. \<open>tweetText == False\<close>
  holds for the value \<open>False\<close> only, since \<open>prepare_tweet\<close> returns \<open>False\<close> or a string.
\<close>

definition new_preprint ::
  "env \<Rightarrow> bool \<Rightarrow> string \<Rightarrow> counters \<Rightarrow> world \<Rightarrow> (py_error + counters) \<times> world" where
  "new_preprint e usetwitter preprint_id c w =
     (let w1 = write_log ''New preprint found!'' w;
          w2 = w1\<lparr>figshare_calls := figshare_calls w1 @ [Preprint preprint_id]\<rparr>
      in case api_preprint e w1 preprint_id of
           Inl err \<Rightarrow> (Inl err, w2)
         | Inr current_preprint \<Rightarrow>
             (let preprint_title = art_title current_preprint;
                  authorData = art_authors current_preprint;
                  preprintURL = doiRootURL @ art_doi current_preprint;
                  w3 = w2\<lparr>figshare_calls := figshare_calls w2 @ [Files preprint_id]\<rparr>
              in case api_files e w2 preprint_id of
                   Inl err \<Rightarrow> (Inl err, w3)
                 | Inr files \<Rightarrow>
                     (case get_preprint_image_url files of
                        Inl err \<Rightarrow> (Inl err, w3)
                      | Inr thumbnailURL \<Rightarrow>
                          (let tags = art_tags current_preprint
                           in case prepare_tweet preprint_title authorData preprintURL tags of
                                Inl err \<Rightarrow> (Inl err, w3)
                              | Inr tweetText \<Rightarrow>
                                  (case
                                     (case tweetText of
                                        PStr text \<Rightarrow>
                                          (case tweet_image_any e thumbnailURL text usetwitter
                                                  (write_log (''Submitting '' @ preprint_id
                                                     @ '' to Twitter...'') w3) of
                                             (Inl err, w4) \<Rightarrow> (Inl err, w4)
                                           | (Inr _, w4) \<Rightarrow>
                                               (Inr (c\<lparr>preprints_tweeted :=
                                                        preprints_tweeted c + 1\<rparr>), w4))
                                      | _ \<Rightarrow>
                                          (Inr (c\<lparr>preprints_tweeted_FAILED :=
                                                   preprints_tweeted_FAILED c + 1\<rparr>),
                                           write_log (''NOTICE: Could not tweet preprint at ''
                                              @ preprintURL @ '', please check manually.'') w3))
                                   of
                                     (Inl err, w5) \<Rightarrow> (Inl err, w5)
                                   | (Inr c1, w5) \<Rightarrow>
                                       (let w6 = write_log ''Committing ID to log...'' w5;
                                            w7 = commit_id preprint_id w6;
                                            w8 = write_log (''Wrote ''
                                                   @ str_int (art_id current_preprint)
                                                   @ '' to log'') w7;
                                            c2 = c1\<lparr>preprints_added := preprints_added c1 + 1\<rparr>
                                        in (Inr c2,
                                            if usetwitter then w8\<lparr>slept := slept w8 + 1800\<rparr>
                                            else w8)))))))"

text \<open>
  Lines 306-374: \<open>for i in range(numberPreprints)\<close> with \<open>l = next(doc)\<close>. The first numeral
  is what is left of the range, \<open>doc\<close> is what the generator has still to yield; \<open>next\<close> on
  the exhausted generator raises \<open>StopIteration\<close>.
\<close>

fun main_loop ::
  "env \<Rightarrow> bool \<Rightarrow> string list \<Rightarrow> nat \<Rightarrow> summary list \<Rightarrow> counters \<Rightarrow> world
     \<Rightarrow> (py_error + counters) \<times> world" where
  "main_loop e usetwitter id_log 0 doc c w = (Inr c, w)"
| "main_loop e usetwitter id_log (Suc n) [] c w = (Inl StopIteration, w)"
| "main_loop e usetwitter id_log (Suc n) (l # doc) c w =
     (let preprint_id = str_int (sum_id l)
      in if preprint_id \<in> set id_log
         then main_loop e usetwitter id_log n doc c w
         else (case new_preprint e usetwitter preprint_id c w of
                 (Inl err, w1) \<Rightarrow> (Inl err, w1)
               | (Inr c1, w1) \<Rightarrow> main_loop e usetwitter id_log n doc c1 w1))"

text \<open>
  Lines 281-377: the ID log is read, the loop runs, and the summary line is written when
  the loop has ended without a raise.
\<close>

definition crxbot :: "env \<Rightarrow> bool \<Rightarrow> summary list \<Rightarrow> world \<Rightarrow> (py_error + unit) \<times> world" where
  "crxbot e usetwitter doc w =
     (let id_log = read_id_log (id_log_txt w);
          w1 = write_log ''ID Log successfully loaded...'' w;
          numberPreprints = getsizeof_doc e;
          w2 = write_log (''Retrieved '' @ str_nat numberPreprints
                 @ '' preprints. Beginning search for new content...'') w1;
          c0 = \<lparr>preprints_added = 0, preprints_tweeted = 0, preprints_tweeted_FAILED = 0\<rparr>
      in case main_loop e usetwitter id_log numberPreprints doc c0 w2 of
           (Inl err, w3) \<Rightarrow> (Inl err, w3)
         | (Inr c, w3) \<Rightarrow>
             (Inr (), write_log (''All preprints checked. Processed ''
                        @ str_nat (preprints_added c) @ '' new preprints. Tweeted ''
                        @ str_nat (preprints_tweeted c) @ '', failed to tweet ''
                        @ str_nat (preprints_tweeted_FAILED c) @ ''.'') w3))"

section \<open>The specification's reading of the two pure components\<close>

subsection \<open>ImageResolver\<close>

text \<open>
  A file record is a dictionary with an \<open>is_link_only\<close> entry; one that is not link-only
  also carries a \<open>name\<close> that is a string and a \<open>download_url\<close>.
\<close>

fun file_record :: "pyval \<Rightarrow> bool" where
  "file_record (PDict kvs) =
     (case map_of kvs ''is_link_only'' of
        None \<Rightarrow> False
      | Some link \<Rightarrow>
          truthy link \<or>
          (case map_of kvs ''name'' of
             Some (PStr s) \<Rightarrow> map_of kvs ''download_url'' \<noteq> None
           | _ \<Rightarrow> False))"
| "file_record _ = False"

definition link_only :: "pyval \<Rightarrow> bool" where
  "link_only f =
     (case subscript f ''is_link_only'' of Inr link \<Rightarrow> truthy link | Inl _ \<Rightarrow> False)"

text \<open>The name ends, case-insensitively, in \<open>.png\<close> or \<open>.jpg\<close>.\<close>

definition image_name :: "pyval \<Rightarrow> bool" where
  "image_name f =
     (case subscript f ''name'' of
        Inr (PStr s) \<Rightarrow> endswith (str_lower s) ''.png'' \<or> endswith (str_lower s) ''.jpg''
      | _ \<Rightarrow> False)"

definition qualifies :: "pyval \<Rightarrow> bool" where
  "qualifies f = (\<not> link_only f \<and> image_name f)"

text \<open>The download URL of the first qualifying record in listed order, or the empty string.\<close>

definition first_image :: "pyval list \<Rightarrow> pyval" where
  "first_image fs =
     (case find qualifies fs of
        None \<Rightarrow> PStr []
      | Some f \<Rightarrow> (case subscript f ''download_url'' of Inr u \<Rightarrow> u | Inl _ \<Rightarrow> PStr []))"

subsection \<open>MessageComposer\<close>

text \<open>A tag lower-cased, its spaces replaced by hyphens, prefixed with \<open>#\<close>.\<close>

definition hashtag_of :: "string \<Rightarrow> string" where
  "hashtag_of tag = CHR ''#'' # replace_space (str_lower tag)"

text \<open>
  Greedy selection within the budget of 255 characters: \<open>used\<close> is the length of the
  running text, and a hashtag joins it behind one separating space, which is counted.
  A hashtag that does not fit is skipped and the later tags are still tried.
\<close>

fun select_hashtags :: "nat \<Rightarrow> string list \<Rightarrow> string list" where
  "select_hashtags used [] = []"
| "select_hashtags used (tag # tags) =
     (if used + 1 + length (hashtag_of tag) \<le> 255
      then hashtag_of tag # select_hashtags (used + 1 + length (hashtag_of tag)) tags
      else select_hashtags used tags)"

text \<open>Title, the literal \<open> by \<close>, the named author, and the co-author suffix when asked for.\<close>

definition head_text :: "string \<Rightarrow> string \<Rightarrow> bool \<Rightarrow> string" where
  "head_text title name coworkers =
     title @ '' by '' @ name @ (if coworkers then '' & co-workers'' else [])"

text \<open>Head, selected hashtags, two line breaks, the URL as it is.\<close>

definition compose_text ::
  "string \<Rightarrow> string \<Rightarrow> bool \<Rightarrow> string \<Rightarrow> string list \<Rightarrow> string" where
  "compose_text title name coworkers url tags =
     (let head = head_text title name coworkers
      in head @ concat (map (\<lambda>h. CHR '' '' # h) (select_hashtags (length head) tags))
           @ [CHR 0x0A, CHR 0x0A] @ url)"

text \<open>The length of a text with its URL counted as a token of width 23.\<close>

definition counted_length :: "string \<Rightarrow> string \<Rightarrow> int" where
  "counted_length text url = int (length text) - int (length url) + 23"

text \<open>The \<open>full_name\<close> of the last author, when it is a string.\<close>

definition last_full_name :: "pyval list \<Rightarrow> string" where
  "last_full_name authors =
     (case subscript (last authors) ''full_name'' of Inr (PStr name) \<Rightarrow> name | _ \<Rightarrow> [])"

text \<open>The inputs of the specification's examples.\<close>

definition fig_files :: "pyval list" where
  "fig_files =
     [PDict [(''name'', PStr ''fig1.svg''), (''is_link_only'', PBool False),
             (''download_url'', PStr ''https://ndownloader.figshare.com/files/1'')],
      PDict [(''name'', PStr ''fig2.PNG''), (''is_link_only'', PBool False),
             (''download_url'', PStr ''https://ndownloader.figshare.com/files/2'')]]"

definition smith_jones :: "pyval list" where
  "smith_jones =
     [PDict [(''full_name'', PStr ''A. Smith'')], PDict [(''full_name'', PStr ''B. Jones'')]]"

definition study_text :: string where
  "study_text =
     ''A Study of X by B. Jones & co-workers #organic-chemistry #catalysis''
       @ [CHR 0x0A, CHR 0x0A] @ ''https://doi.org/10.1/abc''"

definition long_title :: string where
  "long_title = replicate 300 CHR ''a''"

text \<open>
  An article, a start state whose log holds the identifier 1, and three ways the
  surroundings may answer: image host unreachable, posting API refusing, all well.
\<close>

definition study_article :: article where
  "study_article =
     \<lparr>art_id = 7, art_title = ''A Study of X'', art_authors = smith_jones,
      art_doi = ''10.1/abc'', art_tags = [''Organic Chemistry'', ''Catalysis'']\<rparr>"

definition fig2_url :: string where
  "fig2_url = ''https://ndownloader.figshare.com/files/2''"

definition start_world :: world where
  "start_world =
     \<lparr>activity_log = [], id_log_txt = ''1'' @ [CHR 0x0A], temp_png = None, twitter_calls = [],
      figshare_calls = [], image_requests = [], slept = 0\<rparr>"

definition net_down_env :: env where
  "net_down_env =
     \<lparr>requests_get = (\<lambda>w url. Inl ConnectionError),
      twitter_api = (\<lambda>w call. None),
      api_preprint = (\<lambda>w i. Inr study_article),
      api_files = (\<lambda>w i. Inr (PList fig_files)),
      getsizeof_doc = 112\<rparr>"

definition twitter_down_env :: env where
  "twitter_down_env =
     \<lparr>requests_get = (\<lambda>w url. Inr \<lparr>status_code = 200, body = replicate 3000 CHR ''x''\<rparr>),
      twitter_api = (\<lambda>w call. Some TweepError),
      api_preprint = (\<lambda>w i. Inr study_article),
      api_files = (\<lambda>w i. Inr (PList fig_files)),
      getsizeof_doc = 112\<rparr>"

definition all_up_env :: env where
  "all_up_env =
     \<lparr>requests_get = (\<lambda>w url. Inr \<lparr>status_code = 200, body = replicate 3000 CHR ''x''\<rparr>),
      twitter_api = (\<lambda>w call. None),
      api_preprint = (\<lambda>w i. Inr study_article),
      api_files = (\<lambda>w i. Inr (PList fig_files)),
      getsizeof_doc = 112\<rparr>"

section \<open>Properties of get_preprint_image_url\<close>

lemma image_loop_first_image:
  "list_all file_record fs \<Longrightarrow> image_loop fs = Inr (first_image fs)"
proof (induction fs)
  case Nil
  show ?case by (simp add: first_image_def)
next
  case (Cons f fs)
  then obtain kvs where f: "f = PDict kvs" by (cases f) auto
  from Cons have ih: "image_loop fs = Inr (first_image fs)" by simp
  from Cons.prems f have rec: "file_record (PDict kvs)" by simp
  show ?case
    using rec ih unfolding f
    by (auto simp: first_image_def qualifies_def link_only_def image_name_def
             split: option.splits pyval.splits)
qed

lemma not_list_empty: "\<not> is_list files \<Longrightarrow> get_preprint_image_url files = Inr (PStr [])"
  by (cases files) auto

text \<open>
  Claim C5. On an input that is not a list, \<open>get_preprint_image_url\<close> returns the empty
  string and does not raise. On a list of file records it returns the download URL of the
  first record, in listed order, that is not link-only and whose lower-cased name ends in
  \<open>.png\<close> or \<open>.jpg\<close>, and the empty string when there is none. On the records
  \<open>fig1.svg\<close>, \<open>fig2.PNG\<close> it returns the download URL of \<open>fig2.PNG\<close>.
\<close>

theorem resolve_image_first_match:
  "(\<not> is_list files \<longrightarrow> get_preprint_image_url files = Inr (PStr [])) \<and>
   (list_all file_record fs \<longrightarrow> get_preprint_image_url (PList fs) = Inr (first_image fs)) \<and>
   (list_all file_record fs \<longrightarrow> find qualifies fs = None \<longrightarrow>
      get_preprint_image_url (PList fs) = Inr (PStr [])) \<and>
   get_preprint_image_url (PList fig_files)
     = Inr (PStr ''https://ndownloader.figshare.com/files/2'')"
proof (intro conjI impI)
  show "get_preprint_image_url (PList fig_files)
          = Inr (PStr ''https://ndownloader.figshare.com/files/2'')"
    by code_simp
qed (simp_all add: not_list_empty image_loop_first_image first_image_def)

theorem resolve_image_first_match_witness:
  "\<not> is_list PNone \<and> get_preprint_image_url PNone = Inr (PStr []) \<and>
   list_all file_record fig_files \<and>
   get_preprint_image_url (PList fig_files) = Inr (first_image fig_files) \<and>
   list_all file_record [hd fig_files] \<and> find qualifies [hd fig_files] = None \<and>
   get_preprint_image_url (PList [hd fig_files]) = Inr (PStr [])"
proof -
  have h1: "\<not> is_list PNone" by simp
  have h2: "list_all file_record fig_files" by code_simp
  have h3: "list_all file_record [hd fig_files]" by code_simp
  have h4: "find qualifies [hd fig_files] = None" by code_simp
  show ?thesis
    using h1 h2 h3 h4
      resolve_image_first_match [of PNone fig_files]
      resolve_image_first_match [of PNone "[hd fig_files]"]
    by blast
qed

section \<open>Properties of prepare_tweet\<close>

lemma hashtag_loop_select:
  "hashtag_loop t tags
     = t @ concat (map (\<lambda>h. CHR '' '' # h) (select_hashtags (length t) tags))"
  by (induction tags arbitrary: t) (simp_all add: hashtag_of_def Let_def)

lemma hashtag_loop_le: "length t \<le> 255 \<Longrightarrow> length (hashtag_loop t tags) \<le> 255"
  by (induction tags arbitrary: t) (simp_all add: Let_def)

lemma hashtag_loop_over: "255 < length t \<Longrightarrow> hashtag_loop t tags = t"
  by (induction tags arbitrary: t) (simp_all add: Let_def)

lemma prepare_tweet_head:
  assumes "authors \<noteq> []" "subscript (last authors) ''full_name'' = Inr (PStr name)"
  shows "prepare_tweet title authors url tags =
           (if 255 < length (hashtag_loop (head_text title name (1 < length authors)) tags)
            then Inr (PBool False)
            else Inr (PStr (hashtag_loop (head_text title name (1 < length authors)) tags
                              @ [CHR 0x0A, CHR 0x0A] @ url)))"
proof -
  have h: "head_text title name (1 < length authors) =
             (title @ '' by '') @ (if length authors > 1 then name @ '' & co-workers'' else name)"
    by (simp add: head_text_def)
  show ?thesis
    using assms unfolding prepare_tweet_def h Let_def by simp
qed

lemma prepare_tweet_cases:
  assumes "authors \<noteq> []" "subscript (last authors) ''full_name'' = Inr (PStr name)"
  shows "prepare_tweet title authors url tags =
           (if 280 < counted_length (compose_text title name (1 < length authors) url tags) url
            then Inr (PBool False)
            else Inr (PStr (compose_text title name (1 < length authors) url tags)))"
  using assms
  by (simp add: prepare_tweet_def compose_text_def head_text_def counted_length_def
        hashtag_loop_select Let_def)

lemma prepare_tweet_result:
  "prepare_tweet title authors url tags = Inr r \<Longrightarrow>
     authors \<noteq> [] \<and>
     subscript (last authors) ''full_name'' = Inr (PStr (last_full_name authors))"
  by (auto simp: prepare_tweet_def last_full_name_def Let_def
           split: if_splits sum.splits pyval.splits)

lemma rejected_iff:
  assumes "authors \<noteq> []" "subscript (last authors) ''full_name'' = Inr (PStr name)"
  shows "prepare_tweet title authors url tags = Inr (PBool False)
         \<longleftrightarrow> 255 < length (head_text title name (1 < length authors))"
proof (cases "255 < length (head_text title name (1 < length authors))")
  case True
  then show ?thesis
    using hashtag_loop_over [of "head_text title name (1 < length authors)" tags]
    by (simp add: prepare_tweet_head [OF assms])
next
  case False
  then have "length (hashtag_loop (head_text title name (1 < length authors)) tags) \<le> 255"
    by (simp add: hashtag_loop_le)
  then show ?thesis using False
    by (simp add: prepare_tweet_head [OF assms])
qed

lemma compose_text_ends: "endswith (compose_text title name cw url tags) url"
  by (simp add: compose_text_def endswith_def Let_def)

lemma study_accepted:
  "prepare_tweet ''A Study of X'' smith_jones ''https://doi.org/10.1/abc''
     [''Organic Chemistry'', ''Catalysis''] = Inr (PStr study_text)"
  by code_simp

lemma long_title_rejected:
  "prepare_tweet long_title smith_jones ''https://doi.org/10.1/abc'' [''Catalysis'']
     = Inr (PBool False)"
  by code_simp

text \<open>
  Claim C1. Whenever \<open>prepare_tweet\<close> returns a text, the text ends in the URL and its
  counted length (the length without the URL string, plus 23 for the URL token, the two
  line breaks included) is at most 280. For a non-empty author list whose last entry has a
  name, the function returns \<open>False\<close> exactly when the counted length of the assembled text
  exceeds 280, and the whole assembled text otherwise: nothing is cut off.
\<close>

theorem compose_counted_length_bound:
  "(prepare_tweet title authors url tags = Inr (PStr text) \<longrightarrow>
      endswith text url \<and> counted_length text url \<le> 280) \<and>
   (authors \<noteq> [] \<and> subscript (last authors) ''full_name'' = Inr (PStr name) \<longrightarrow>
      prepare_tweet title authors url tags =
        (if 280 < counted_length (compose_text title name (1 < length authors) url tags) url
         then Inr (PBool False)
         else Inr (PStr (compose_text title name (1 < length authors) url tags))))"
proof (intro conjI impI)
  assume r: "prepare_tweet title authors url tags = Inr (PStr text)"
  note c = prepare_tweet_cases [of authors "last_full_name authors" title url tags]
  from prepare_tweet_result [OF r] c r
  have t: "text = compose_text title (last_full_name authors) (1 < length authors) url tags"
    and b: "\<not> 280 < counted_length text url"
    by (auto split: if_splits)
  from t show "endswith text url" by (simp add: compose_text_ends)
  from b show "counted_length text url \<le> 280" by simp
next
  assume "authors \<noteq> [] \<and> subscript (last authors) ''full_name'' = Inr (PStr name)"
  then show "prepare_tweet title authors url tags =
        (if 280 < counted_length (compose_text title name (1 < length authors) url tags) url
         then Inr (PBool False)
         else Inr (PStr (compose_text title name (1 < length authors) url tags)))"
    by (simp add: prepare_tweet_cases)
qed

theorem compose_counted_length_bound_witness:
  "prepare_tweet ''A Study of X'' smith_jones ''https://doi.org/10.1/abc''
     [''Organic Chemistry'', ''Catalysis''] = Inr (PStr study_text) \<and>
   counted_length study_text ''https://doi.org/10.1/abc'' \<le> 280 \<and>
   smith_jones \<noteq> [] \<and>
   subscript (last smith_jones) ''full_name'' = Inr (PStr ''B. Jones'') \<and>
   280 < counted_length
           (compose_text long_title ''B. Jones'' (1 < length smith_jones)
              ''https://doi.org/10.1/abc'' [''Catalysis'']) ''https://doi.org/10.1/abc'' \<and>
   prepare_tweet long_title smith_jones ''https://doi.org/10.1/abc'' [''Catalysis'']
     = Inr (PBool False)"
proof -
  have h1: "smith_jones \<noteq> []" by code_simp
  have h2: "subscript (last smith_jones) ''full_name'' = Inr (PStr ''B. Jones'')"
    by code_simp
  have h3: "280 < counted_length
           (compose_text long_title ''B. Jones'' (1 < length smith_jones)
              ''https://doi.org/10.1/abc'' [''Catalysis'']) ''https://doi.org/10.1/abc''"
    by code_simp
  show ?thesis
    using study_accepted h1 h2 h3
      compose_counted_length_bound [of "''A Study of X''" smith_jones
        "''https://doi.org/10.1/abc''" "[''Organic Chemistry'', ''Catalysis'']" study_text
        "''B. Jones''"]
      compose_counted_length_bound [of long_title smith_jones
        "''https://doi.org/10.1/abc''" "[''Catalysis'']" study_text "''B. Jones''"]
    by simp
qed

text \<open>
  Claim C6. An accepted composition is the title, the literal \<open> by \<close>, the full name of the
  last author with \<open> & co-workers\<close> appended exactly when there is more than one author,
  then the greedily selected hashtags (each tag lower-cased, spaces replaced by hyphens,
  prefixed with \<open>#\<close>, joined behind a single space, added only while the running text
  stays within 255 characters, a tag that does not fit being skipped and later tags still
  tried), then two line breaks and the URL as it is.
\<close>

theorem compose_accepted_text:
  "prepare_tweet title authors url tags = Inr (PStr text) \<Longrightarrow>
     authors \<noteq> [] \<and>
     subscript (last authors) ''full_name'' = Inr (PStr (last_full_name authors)) \<and>
     text = head_text title (last_full_name authors) (1 < length authors)
              @ concat (map (\<lambda>h. CHR '' '' # h)
                  (select_hashtags
                     (length (head_text title (last_full_name authors) (1 < length authors)))
                     tags))
              @ [CHR 0x0A, CHR 0x0A] @ url"
proof -
  assume r: "prepare_tweet title authors url tags = Inr (PStr text)"
  note c = prepare_tweet_cases [of authors "last_full_name authors" title url tags]
  from prepare_tweet_result [OF r] c r show ?thesis
    by (auto simp: compose_text_def Let_def split: if_splits)
qed

theorem compose_accepted_text_witness:
  "prepare_tweet ''A Study of X'' smith_jones ''https://doi.org/10.1/abc''
     [''Organic Chemistry'', ''Catalysis''] = Inr (PStr study_text) \<and>
   last_full_name smith_jones = ''B. Jones'' \<and>
   head_text ''A Study of X'' ''B. Jones'' (1 < length smith_jones)
     = ''A Study of X by B. Jones & co-workers'' \<and>
   select_hashtags (length ''A Study of X by B. Jones & co-workers'')
     [''Organic Chemistry'', ''Catalysis''] = [''#organic-chemistry'', ''#catalysis''] \<and>
   study_text = head_text ''A Study of X'' (last_full_name smith_jones) (1 < length smith_jones)
              @ concat (map (\<lambda>h. CHR '' '' # h)
                  (select_hashtags
                     (length (head_text ''A Study of X'' (last_full_name smith_jones)
                        (1 < length smith_jones)))
                     [''Organic Chemistry'', ''Catalysis'']))
              @ [CHR 0x0A, CHR 0x0A] @ ''https://doi.org/10.1/abc''"
proof -
  have h1: "last_full_name smith_jones = ''B. Jones''" by code_simp
  have h2: "head_text ''A Study of X'' ''B. Jones'' (1 < length smith_jones)
     = ''A Study of X by B. Jones & co-workers''" by code_simp
  have h3: "select_hashtags (length ''A Study of X by B. Jones & co-workers'')
     [''Organic Chemistry'', ''Catalysis''] = [''#organic-chemistry'', ''#catalysis'']"
    by code_simp
  show ?thesis
    using h1 h2 h3 study_accepted compose_accepted_text [OF study_accepted]
    by simp
qed

text \<open>
  Claim C10. \<open>prepare_tweet\<close> presupposes an author: on the empty author list it raises
  \<open>IndexError\<close> at \<open>authors[-1]\<close>, and returns neither \<open>False\<close> nor a text. \<open>False\<close> comes
  only from the length check: when it is returned the author list is not empty and the
  counted length of the assembled text exceeds 280, which happens exactly when the head
  alone is longer than 255 characters.
\<close>

theorem compose_empty_authors_raises:
  "prepare_tweet title [] url tags = Inl IndexError \<and>
   (prepare_tweet title authors url tags = Inr (PBool False) \<longrightarrow>
      authors \<noteq> [] \<and>
      280 < counted_length
              (compose_text title (last_full_name authors) (1 < length authors) url tags) url \<and>
      255 < length (head_text title (last_full_name authors) (1 < length authors)))"
proof (intro conjI impI)
  show "prepare_tweet title [] url tags = Inl IndexError"
    by (simp add: prepare_tweet_def)
next
  assume r: "prepare_tweet title authors url tags = Inr (PBool False)"
  note p = prepare_tweet_result [OF r]
  from p show "authors \<noteq> []" by simp
  from p prepare_tweet_cases [of authors "last_full_name authors" title url tags] r
  show "280 < counted_length
              (compose_text title (last_full_name authors) (1 < length authors) url tags) url"
    by (auto split: if_splits)
  from p rejected_iff [of authors "last_full_name authors" title url tags] r
  show "255 < length (head_text title (last_full_name authors) (1 < length authors))"
    by simp
qed

theorem compose_empty_authors_raises_witness:
  "prepare_tweet long_title [] ''https://doi.org/10.1/abc'' [''Catalysis''] = Inl IndexError \<and>
   prepare_tweet long_title smith_jones ''https://doi.org/10.1/abc'' [''Catalysis'']
     = Inr (PBool False) \<and>
   smith_jones \<noteq> [] \<and>
   255 < length (head_text long_title (last_full_name smith_jones) (1 < length smith_jones))"
  using long_title_rejected
    compose_empty_authors_raises [of long_title "''https://doi.org/10.1/abc''" "[''Catalysis'']"
      smith_jones]
  by simp

section \<open>Lemmas on the log file, the loop and the poster\<close>

lemma universal_newlines_Cons: "c \<noteq> CHR 0x0D \<Longrightarrow> universal_newlines (c # cs) = c # universal_newlines cs"
  by (cases cs) simp_all

lemma universal_newlines_id: "CHR 0x0D \<notin> set s \<Longrightarrow> universal_newlines s = s"
  by (induction s) (auto simp: universal_newlines_Cons)

lemma universal_newlines_append:
  "content = [] \<or> last content = CHR 0x0A \<Longrightarrow>
     universal_newlines (content @ rest) = universal_newlines content @ universal_newlines rest"
proof (induction content rule: universal_newlines.induct)
  case 1
  show ?case by simp
next
  case (2 c)
  then show ?case by (simp add: universal_newlines_Cons)
next
  case (3 c d cs)
  then show ?case by (auto split: if_splits)
qed

lemma universal_newlines_last:
  "content \<noteq> [] \<Longrightarrow> last content = CHR 0x0A \<Longrightarrow>
     universal_newlines content \<noteq> [] \<and> last (universal_newlines content) = CHR 0x0A"
proof (induction content rule: universal_newlines.induct)
  case 1
  then show ?case by simp
next
  case (2 c)
  then show ?case by simp
next
  case (3 c d cs)
  then show ?case by (auto split: if_splits)
qed

lemma file_lines_append:
  "xs \<noteq> [] \<Longrightarrow> last xs = CHR 0x0A \<Longrightarrow>
     file_lines cur (xs @ ys) = file_lines cur xs @ file_lines [] ys"
proof (induction xs arbitrary: cur)
  case Nil
  then show ?case by simp
next
  case (Cons c cs)
  then show ?case by (cases "cs = []") auto
qed

lemma file_lines_one:
  "CHR 0x0A \<notin> set p \<Longrightarrow> file_lines cur (p @ [CHR 0x0A]) = [cur @ p @ [CHR 0x0A]]"
  by (induction p arbitrary: cur) auto

lemma strip_newline_line: "CHR 0x0A \<notin> set p \<Longrightarrow> strip_newline (p @ [CHR 0x0A]) = p"
proof (cases p)
  case Nil
  then show ?thesis by (simp add: strip_newline_def)
next
  case (Cons c cs)
  assume n: "CHR 0x0A \<notin> set p"
  with Cons have c: "c \<noteq> CHR 0x0A" by auto
  have "dropWhile (\<lambda>c. c = CHR 0x0A) (rev p) = rev p"
    using n by (cases "rev p") auto
  with c Cons show ?thesis by (simp add: strip_newline_def)
qed

lemma read_id_log_commit:
  assumes "CHR 0x0A \<notin> set pid" "CHR 0x0D \<notin> set pid"
    and "content = [] \<or> last content = CHR 0x0A"
  shows "read_id_log (content @ pid @ [CHR 0x0A]) = read_id_log content @ [pid]"
proof -
  have u: "universal_newlines (content @ pid @ [CHR 0x0A])
             = universal_newlines content @ pid @ [CHR 0x0A]"
    using assms by (simp add: universal_newlines_append universal_newlines_id)
  show ?thesis
  proof (cases "content = []")
    case True
    with u have "universal_newlines (pid @ [CHR 0x0A]) = pid @ [CHR 0x0A]" by simp
    then show ?thesis using assms(1) True
      by (simp add: read_id_log_def file_lines_one [of pid "[]", simplified] strip_newline_line)
  next
    case False
    with assms(3) have "universal_newlines content \<noteq> [] \<and> last (universal_newlines content) = CHR 0x0A"
      by (simp add: universal_newlines_last)
    then show ?thesis using assms(1)
      by (simp add: read_id_log_def u file_lines_append
            file_lines_one [of pid "[]", simplified] strip_newline_line)
  qed
qed

lemma digit_char_not_newline:
  assumes "d < 10" shows "digit_char d \<noteq> CHR 0x0A \<and> digit_char d \<noteq> CHR 0x0D"
proof -
  have "(of_char (digit_char d) :: nat) = 48 + d"
    using assms by (simp add: digit_char_def)
  then show ?thesis by auto
qed

lemma str_nat_no_line_break: "CHR 0x0A \<notin> set (str_nat n) \<and> CHR 0x0D \<notin> set (str_nat n)"
proof (induction n rule: str_nat.induct)
  case (1 n)
  show ?case
  proof (cases "n < 10")
    case True
    then show ?thesis using digit_char_not_newline [of n] by (subst str_nat.simps, subst str_nat.simps) auto
  next
    case False
    then show ?thesis using 1 digit_char_not_newline [of "n mod 10"]
      by (subst str_nat.simps, subst str_nat.simps) auto
  qed
qed

lemma str_int_no_line_break: "CHR 0x0A \<notin> set (str_int i) \<and> CHR 0x0D \<notin> set (str_int i)"
  using str_nat_no_line_break by (simp add: str_int_def)

lemma main_loop_known:
  "\<forall>l\<in>set doc. str_int (sum_id l) \<in> set id_log \<Longrightarrow>
     main_loop e usetwitter id_log n doc c w
       = (if n \<le> length doc then Inr c else Inl StopIteration, w)"
proof (induction doc arbitrary: n)
  case Nil
  then show ?case by (cases n) simp_all
next
  case (Cons l doc)
  then show ?case by (cases n) (simp_all add: Let_def)
qed

lemma short_stream_raises:
  "length doc < n \<Longrightarrow> \<exists>err. fst (main_loop e usetwitter id_log n doc c w) = Inl err"
proof (induction doc arbitrary: n c w)
  case Nil
  then show ?case by (cases n) simp_all
next
  case (Cons l doc)
  then obtain m where n: "n = Suc m" and m: "length doc < m" by (cases n) auto
  show ?case
  proof (cases "str_int (sum_id l) \<in> set id_log")
    case True
    then show ?thesis using Cons.IH [OF m] n by simp
  next
    case False
    show ?thesis
    proof (cases "new_preprint e usetwitter (str_int (sum_id l)) c w")
      case (Pair r w1)
      then show ?thesis using False n Cons.IH [OF m, of _ w1]
        by (cases r) simp_all
    qed
  qed
qed

lemma long_stream_cut:
  "n \<le> length doc \<Longrightarrow>
     main_loop e usetwitter id_log n doc c w = main_loop e usetwitter id_log n (take n doc) c w"
proof (induction doc arbitrary: n c w)
  case Nil
  then show ?case by simp
next
  case (Cons l doc)
  show ?case
  proof (cases n)
    case 0
    then show ?thesis by simp
  next
    case (Suc m)
    with Cons.prems have m: "m \<le> length doc" by simp
    show ?thesis using Suc Cons.IH [OF m]
      by (simp add: Let_def split: prod.splits sum.splits)
  qed
qed

lemma download_raises:
  "url \<noteq> [] \<Longrightarrow> requests_get e w url = Inl err \<Longrightarrow>
     download e url w = (Inl err, w\<lparr>image_requests := image_requests w @ [url]\<rparr>)"
  by (simp add: download_def)

lemma download_ok:
  "url \<noteq> [] \<Longrightarrow> requests_get e w url = Inr r \<Longrightarrow> status_code r = 200 \<Longrightarrow>
     download e url w
       = (Inr True, w\<lparr>image_requests := image_requests w @ [url], temp_png := Some (body r)\<rparr>)"
  by (simp add: download_def)

lemma download_bad_status:
  "url \<noteq> [] \<Longrightarrow> requests_get e w url = Inr r \<Longrightarrow> status_code r \<noteq> 200 \<Longrightarrow>
     download e url w
       = (Inr False,
          write_log ''Error, couldn't download image. Continue without.''
            (w\<lparr>image_requests := image_requests w @ [url]\<rparr>))"
  by (simp add: download_def)

lemma download_no_url: "download e [] w = (Inr False, w)"
  by (simp add: download_def)

lemma download_twitter_calls: "twitter_calls (snd (download e url w)) = twitter_calls w"
  by (simp add: download_def write_log_def Let_def split: sum.splits)

lemma post_offline_twitter_calls: "twitter_calls (snd (post_offline b w)) = twitter_calls w"
  by (simp add: post_offline_def write_log_def Let_def split: option.splits)

lemma tweet_image_raises:
  "url \<noteq> [] \<Longrightarrow> requests_get e w url = Inl err \<Longrightarrow>
     tweet_image e url message usetwitter w
       = (Inl err, w\<lparr>image_requests := image_requests w @ [url]\<rparr>)"
  by (simp add: tweet_image_def download_raises)

lemma tweet_image_bad_status_live:
  assumes "url \<noteq> []" "requests_get e w url = Inr r" "status_code r \<noteq> 200"
  shows "tweet_image e url message True w =
     (let w1 = write_log ''Error, couldn't download image. Continue without.''
                 (w\<lparr>image_requests := image_requests w @ [url]\<rparr>);
          w2 = w1\<lparr>twitter_calls := twitter_calls w1 @ [UpdateStatus message]\<rparr>
      in case twitter_api e w1 (UpdateStatus message) of
           Some err \<Rightarrow> (Inl err, w2)
         | None \<Rightarrow>
             (Inr (), write_log (''Tweet successful. '' @ message @ '' (''
                        @ str_nat (length message) @ '' characters).'') w2))"
  by (simp add: tweet_image_def download_bad_status [OF assms] post_live_def Let_def
           split: option.splits)

lemma tweet_image_offline_twitter_calls:
  "twitter_calls (snd (tweet_image e url message False w)) = twitter_calls w"
proof (cases "download e url w")
  case (Pair r w1)
  with download_twitter_calls [of e url w] have w1: "twitter_calls w1 = twitter_calls w" by simp
  show ?thesis
  proof (cases r)
    case (Inl err)
    with Pair w1 show ?thesis by (simp add: tweet_image_def)
  next
    case (Inr b)
    with Pair w1 post_offline_twitter_calls [of b w1] show ?thesis
      by (cases "post_offline b w1") (auto simp: tweet_image_def write_log_def split: sum.splits)
  qed
qed

lemma tweet_image_offline_no_url:
  "tweet_image e [] message False w =
     (Inr (), w\<lparr>activity_log := activity_log w @
        [''Offline-Tweeting due to user request (--notwitter on command line).'',
         ''Tweet successful. '' @ message @ '' ('' @ str_nat (length message)
            @ '' characters).'']\<rparr>)"
  by (simp add: tweet_image_def download_no_url post_offline_def write_log_def)

lemma tweet_image_offline_fetched:
  assumes "url \<noteq> []" "requests_get e w url = Inr r" "status_code r = 200"
  shows "tweet_image e url message False w =
     (Inr (), w\<lparr>image_requests := image_requests w @ [url], temp_png := Some (body r),
        activity_log := activity_log w @
        [''Offline-Tweeting due to user request (--notwitter on command line).'',
         ''Tweet includes image of '' @ str_nat (length (body r) div 1024) @ '' KBytes.'',
         ''Tweet successful. '' @ message @ '' ('' @ str_nat (length message)
            @ '' characters).'']\<rparr>)"
  by (simp add: tweet_image_def download_ok [OF assms] post_offline_def write_log_def Let_def)

lemma tweet_image_offline_bad_status:
  assumes "url \<noteq> []" "requests_get e w url = Inr r" "status_code r \<noteq> 200"
  shows "tweet_image e url message False w =
     (Inr (), w\<lparr>image_requests := image_requests w @ [url],
        activity_log := activity_log w @
        [''Error, couldn't download image. Continue without.'',
         ''Offline-Tweeting due to user request (--notwitter on command line).'',
         ''Tweet successful. '' @ message @ '' ('' @ str_nat (length message)
            @ '' characters).'']\<rparr>)"
  by (simp add: tweet_image_def download_bad_status [OF assms] post_offline_def write_log_def)

lemma tweet_image_live_fetched:
  assumes "url \<noteq> []" "requests_get e w url = Inr r" "status_code r = 200"
  shows "tweet_image e url message True w =
     (let w1 = w\<lparr>image_requests := image_requests w @ [url], temp_png := Some (body r)\<rparr>;
          call = UpdateWithMedia ''temp.png'' message;
          w2 = w1\<lparr>twitter_calls := twitter_calls w @ [call]\<rparr>
      in case twitter_api e w1 call of
           Some err \<Rightarrow> (Inl err, w2)
         | None \<Rightarrow>
             (Inr (), write_log (''Tweet successful. '' @ message @ '' (''
                        @ str_nat (length message) @ '' characters).'')
                        (w2\<lparr>temp_png := None\<rparr>)))"
  by (simp add: tweet_image_def download_ok [OF assms] post_live_def Let_def
           split: option.splits)

section \<open>The dedup log\<close>

text \<open>
  Claim C8, as the code has it. The claim fails as stated: a log whose last line has no
  line break swallows the next identifier, and an identifier with a line break in it comes
  back as two.
\<close>

theorem commit_reload_counterexample:
  "''456'' \<notin> set (read_id_log (id_log_txt
       (commit_id ''456'' (start_world\<lparr>id_log_txt := ''123''\<rparr>)))) \<and>
   ''4'' @ [CHR 0x0A] @ ''5'' \<notin> set (read_id_log (id_log_txt
       (commit_id (''4'' @ [CHR 0x0A] @ ''5'') start_world)))"
  by code_simp

text \<open>
  Claim C8, amended. For an identifier without a line break, committed to a log that is
  empty or ends in a line break, the log read again holds the identifiers it held before
  followed by the new one, so \<open>preprint_id in id_log\<close> is true after a reload; and the log
  ends in a line break again.
\<close>

theorem commit_reload_contains:
  assumes "CHR 0x0A \<notin> set pid" and "CHR 0x0D \<notin> set pid"
    and "id_log_txt w = [] \<or> last (id_log_txt w) = CHR 0x0A"
  shows "pid \<in> set (read_id_log (id_log_txt (commit_id pid w))) \<and>
         read_id_log (id_log_txt (commit_id pid w)) = read_id_log (id_log_txt w) @ [pid] \<and>
         last (id_log_txt (commit_id pid w)) = CHR 0x0A"
  using read_id_log_commit [OF assms] by (simp add: commit_id_def)

theorem commit_reload_contains_witness:
  "CHR 0x0A \<notin> set ''7'' \<and> CHR 0x0D \<notin> set ''7'' \<and>
   (id_log_txt start_world = [] \<or> last (id_log_txt start_world) = CHR 0x0A) \<and>
   ''7'' \<in> set (read_id_log (id_log_txt (commit_id ''7'' start_world))) \<and>
   read_id_log (id_log_txt (commit_id ''7'' start_world)) = [''1'', ''7'']"
proof -
  have h1: "CHR 0x0A \<notin> set ''7''" by simp
  have h2: "CHR 0x0D \<notin> set ''7''" by simp
  have h3: "id_log_txt start_world = [] \<or> last (id_log_txt start_world) = CHR 0x0A"
    by (simp add: start_world_def)
  have h4: "read_id_log (id_log_txt start_world) = [''1'']" by code_simp
  show ?thesis
    using h1 h2 h3 h4 commit_reload_contains [OF h1 h2 h3] by simp
qed

section \<open>The main loop\<close>

text \<open>
  Claim C2. When the identifier of every summary of the stream is in \<open>id_log\<close> as read at
  start-up, a run calls neither the posting API nor the detail or file endpoints, fetches
  no image, does not sleep, and leaves \<open>id_log.txt\<close>, and with it the identifiers a reload
  gives, and \<open>temp.png\<close> as they were.
\<close>

theorem known_ids_no_effects:
  assumes "\<forall>l\<in>set doc. str_int (sum_id l) \<in> set (read_id_log (id_log_txt w))"
  shows "twitter_calls (snd (crxbot e usetwitter doc w)) = twitter_calls w \<and>
         figshare_calls (snd (crxbot e usetwitter doc w)) = figshare_calls w \<and>
         image_requests (snd (crxbot e usetwitter doc w)) = image_requests w \<and>
         id_log_txt (snd (crxbot e usetwitter doc w)) = id_log_txt w \<and>
         read_id_log (id_log_txt (snd (crxbot e usetwitter doc w)))
           = read_id_log (id_log_txt w) \<and>
         temp_png (snd (crxbot e usetwitter doc w)) = temp_png w \<and>
         slept (snd (crxbot e usetwitter doc w)) = slept w"
  by (simp add: crxbot_def Let_def main_loop_known [OF assms] write_log_def)

theorem known_ids_no_effects_witness:
  "str_int (sum_id \<lparr>sum_id = 1\<rparr>) \<in> set (read_id_log (id_log_txt start_world)) \<and>
   twitter_calls (snd (crxbot all_up_env True [\<lparr>sum_id = 1\<rparr>, \<lparr>sum_id = 1\<rparr>] start_world)) = [] \<and>
   figshare_calls (snd (crxbot all_up_env True [\<lparr>sum_id = 1\<rparr>, \<lparr>sum_id = 1\<rparr>] start_world)) = [] \<and>
   id_log_txt (snd (crxbot all_up_env True [\<lparr>sum_id = 1\<rparr>, \<lparr>sum_id = 1\<rparr>] start_world))
     = ''1'' @ [CHR 0x0A]"
proof -
  have h: "\<forall>l\<in>set [\<lparr>sum_id = 1\<rparr>, \<lparr>sum_id = 1\<rparr>].
      str_int (sum_id l) \<in> set (read_id_log (id_log_txt start_world))"
    by code_simp
  have m: "str_int (sum_id \<lparr>sum_id = 1\<rparr>) \<in> set (read_id_log (id_log_txt start_world))"
    by code_simp
  show ?thesis
    using m known_ids_no_effects [OF h, of all_up_env True]
    by (simp add: start_world_def)
qed

text \<open>
  Claim C3 does not hold of the code. The loop runs \<open>sys.getsizeof(doc)\<close> times, the size
  of the generator object in bytes, not the number of summaries. On a stream of one
  summary (already in the log) the second \<open>next(doc)\<close> raises \<open>StopIteration\<close>: the run
  ends in the exception and the summary line is never written. On a stream longer than
  that number the loop stops early: with the number at 1 and two new articles, only the
  first is processed before the summary line.
\<close>

theorem stream_end_raises_stop_iteration:
  "crxbot net_down_env False [\<lparr>sum_id = 1\<rparr>] start_world =
     (Inl StopIteration,
      start_world\<lparr>activity_log :=
        [''ID Log successfully loaded...'',
         ''Retrieved 112 preprints. Beginning search for new content...'']\<rparr>) \<and>
   fst (crxbot (all_up_env\<lparr>getsizeof_doc := 1\<rparr>) False
        [\<lparr>sum_id = 7\<rparr>, \<lparr>sum_id = 8\<rparr>] start_world) = Inr () \<and>
   figshare_calls (snd (crxbot (all_up_env\<lparr>getsizeof_doc := 1\<rparr>) False
        [\<lparr>sum_id = 7\<rparr>, \<lparr>sum_id = 8\<rparr>] start_world))
     = [Preprint ''7'', Files ''7''] \<and>
   last (activity_log (snd (crxbot (all_up_env\<lparr>getsizeof_doc := 1\<rparr>) False
        [\<lparr>sum_id = 7\<rparr>, \<lparr>sum_id = 8\<rparr>] start_world)))
     = ''All preprints checked. Processed 1 new preprints. Tweeted 1, failed to tweet 0.''"
  by code_simp

section \<open>tweet_image\<close>

text \<open>
  Claim C4 does not hold of the code for a transport error. \<open>requests.get\<close> is called
  outside any \<open>try\<close>: when it raises, \<open>tweet_image\<close> ends in that exception, having logged
  no warning and posted nothing. (A response with a status other than 200 is handled as
  the claim says: \<open>tweet_image_bad_status_live\<close>.)
\<close>

theorem transport_error_aborts_post:
  "tweet_image net_down_env fig2_url study_text True start_world =
     (Inl ConnectionError, start_world\<lparr>image_requests := [fig2_url]\<rparr>) \<and>
   twitter_calls (snd (tweet_image net_down_env fig2_url study_text True start_world)) = [] \<and>
   activity_log (snd (tweet_image net_down_env fig2_url study_text True start_world)) = []"
  by code_simp

text \<open>
  Claim C7 does not hold of the code on the same input: offline, a raise of
  \<open>requests.get\<close> ends \<open>tweet_image\<close> before anything is written to the log. No call to
  the posting API is made in any offline invocation (\<open>tweet_image_offline_twitter_calls\<close>),
  and whenever \<open>requests.get\<close> returns, or no URL is given, the log receives the image
  size and the message with its length (\<open>tweet_image_offline_fetched\<close>,
  \<open>tweet_image_offline_bad_status\<close>, \<open>tweet_image_offline_no_url\<close>).
\<close>

theorem offline_transport_error_logs_nothing:
  "tweet_image net_down_env fig2_url study_text False start_world =
     (Inl ConnectionError, start_world\<lparr>image_requests := [fig2_url]\<rparr>) \<and>
   activity_log (snd (tweet_image net_down_env fig2_url study_text False start_world)) = []"
  by code_simp

text \<open>
  Claim C9, as the code has it. The claim fails as stated: when \<open>update_with_media\<close>
  raises, \<open>os.remove\<close> is not reached and \<open>temp.png\<close> stays.
\<close>

theorem failed_post_keeps_temp_file:
  "tweet_image twitter_down_env fig2_url study_text True start_world =
     (Inl TweepError,
      start_world\<lparr>image_requests := [fig2_url],
        temp_png := Some (replicate 3000 CHR ''x''),
        twitter_calls := [UpdateWithMedia ''temp.png'' study_text]\<rparr>)"
  by code_simp

text \<open>
  Claim C9, amended. In a live post whose image was fetched, message and image go out in
  one call, \<open>update_with_media\<close>, and no other call is made to the posting API. When that
  call returns, \<open>temp.png\<close> is removed and the function returns; when it raises, the
  exception leaves the function and \<open>temp.png\<close> stays.
\<close>

theorem live_image_post_single_call:
  assumes "url \<noteq> []" and "requests_get e w url = Inr r" and "status_code r = 200"
  shows "twitter_calls (snd (tweet_image e url message True w))
           = twitter_calls w @ [UpdateWithMedia ''temp.png'' message] \<and>
         (twitter_api e
            (w\<lparr>image_requests := image_requests w @ [url], temp_png := Some (body r)\<rparr>)
            (UpdateWithMedia ''temp.png'' message) = None \<longrightarrow>
            fst (tweet_image e url message True w) = Inr () \<and>
            temp_png (snd (tweet_image e url message True w)) = None) \<and>
         (twitter_api e
            (w\<lparr>image_requests := image_requests w @ [url], temp_png := Some (body r)\<rparr>)
            (UpdateWithMedia ''temp.png'' message) = Some err \<longrightarrow>
            fst (tweet_image e url message True w) = Inl err \<and>
            temp_png (snd (tweet_image e url message True w)) = Some (body r))"
  by (simp add: tweet_image_live_fetched [OF assms] Let_def write_log_def
           split: option.splits)

theorem live_image_post_single_call_witness:
  "fig2_url \<noteq> [] \<and>
   requests_get all_up_env start_world fig2_url
     = Inr \<lparr>status_code = 200, body = replicate 3000 CHR ''x''\<rparr> \<and>
   twitter_calls (snd (tweet_image all_up_env fig2_url study_text True start_world))
     = [UpdateWithMedia ''temp.png'' study_text] \<and>
   fst (tweet_image all_up_env fig2_url study_text True start_world) = Inr () \<and>
   temp_png (snd (tweet_image all_up_env fig2_url study_text True start_world)) = None \<and>
   fst (tweet_image twitter_down_env fig2_url study_text True start_world) = Inl TweepError \<and>
   temp_png (snd (tweet_image twitter_down_env fig2_url study_text True start_world))
     = Some (replicate 3000 CHR ''x'')"
proof -
  have h1: "fig2_url \<noteq> []" by (simp add: fig2_url_def)
  have h2: "requests_get all_up_env start_world fig2_url
     = Inr \<lparr>status_code = 200, body = replicate 3000 CHR ''x''\<rparr>"
    by (simp add: all_up_env_def)
  have h3: "requests_get twitter_down_env start_world fig2_url
     = Inr \<lparr>status_code = 200, body = replicate 3000 CHR ''x''\<rparr>"
    by (simp add: twitter_down_env_def)
  have s: "status_code \<lparr>status_code = 200, body = replicate 3000 CHR ''x''\<rparr> = 200" by simp
  have a: "\<And>w c. twitter_api all_up_env w c = None" by (simp add: all_up_env_def)
  have d: "\<And>w c. twitter_api twitter_down_env w c = Some TweepError"
    by (simp add: twitter_down_env_def)
  show ?thesis
    using h1 h2 a d
      live_image_post_single_call [OF h1 h2 s, of study_text TweepError]
      live_image_post_single_call [OF h1 h3 s, of study_text TweepError]
    by (simp add: start_world_def)
qed

end
